theory Spec2Isabelle
  imports
    Complex_Main
    "HOL-Library.Char_ord"
    "HOL-Library.List_Lexorder"
    "HOL-Library.Multiset"
    "HOL-Library.Sublist"
begin

section \<open>Values and bars\<close>

text \<open>
  The frontend receives its data as parsed JSON. A JSON number is modelled as a rational
  (the pages only compare, subtract and pass numbers on; JSON has no NaN), a JSON string
  as a \<open>string\<close>. Strings are compared the way JavaScript compares them, code unit by code
  unit with a proper prefix first: the lexicographic order on \<open>char list\<close>.
\<close>

datatype jsval = JNull | JNum rat | JStr string

text \<open>
  One OHLCV bar of a series. The field \<open>open\<close> of the source is \<open>open_price\<close> here
  (\<open>open\<close> is a constant of the library).
\<close>

record bar =
  date :: string
  open_price :: rat
  high :: rat
  low :: rat
  close :: rat
  volume :: rat

section \<open>The comparison page\<close>

subsection \<open>The response of \<open>/compare\<close> and the merge of \<open>handleCompare\<close>\<close>

text \<open>One leg of the response, \<open>compareResult.coin1\<close> or \<open>compareResult.coin2\<close>.\<close>

record coin_series =
  symbol :: string
  data :: "bar list"

text \<open>
  The parsed response. A leg that the response does not carry (an error body, say) reads
  as \<open>undefined\<close> in the source: \<open>None\<close> here.
\<close>

record compareResult =
  coin1 :: "coin_series option"
  coin2 :: "coin_series option"

text \<open>
  An entry of \<open>merged\<close> is an object with the property \<open>date\<close> and two computed
  property names: a finite map from property names to values.
\<close>

type_synonym entry = "string \<rightharpoonup> jsval"

text \<open>
  \<open>new Set()\<close> keeps its elements in insertion order and \<open>add\<close> ignores an element
  it already holds: a list without repetition, extended at the end.
\<close>

definition set_add :: "'a \<Rightarrow> 'a list \<Rightarrow> 'a list" where
  "set_add x s = (if x \<in> set s then s else s @ [x])"

text \<open>\<open>series.forEach(d => dates.add(d.date))\<close>\<close>

definition add_dates :: "bar list \<Rightarrow> string list \<Rightarrow> string list" where
  "add_dates series dates = fold (\<lambda>d. set_add (date d)) series dates"

text \<open>
  \<open>d?.close || null\<close>: \<open>undefined\<close> when \<open>find\<close> found no bar, and \<open>||\<close> replaces
  every falsy left operand, the number zero too, by \<open>null\<close>.
\<close>

definition close_or_null :: "bar option \<Rightarrow> jsval" where
  "close_or_null d =
     (case d of
        None \<Rightarrow> JNull
      | Some b \<Rightarrow> if close b = 0 then JNull else JNum (close b))"

text \<open>
  The object literal of one date. Its properties are created in source order, so a later
  property of the same name replaces an earlier one.
\<close>

definition merged_entry :: "coin_series \<Rightarrow> coin_series \<Rightarrow> string \<Rightarrow> entry" where
  "merged_entry c1 c2 dt =
     (let d1 = find (\<lambda>d. date d = dt) (data c1);
          d2 = find (\<lambda>d. date d = dt) (data c2)
      in [''date'' \<mapsto> JStr dt, symbol c1 \<mapsto> close_or_null d1, symbol c2 \<mapsto> close_or_null d2])"

text \<open>\<open>Array.from(dates).sort()\<close>: the default sort, ascending in the string order.\<close>

definition merged_dates :: "coin_series \<Rightarrow> coin_series \<Rightarrow> string list" where
  "merged_dates c1 c2 = sort (add_dates (data c2) (add_dates (data c1) []))"

definition merged :: "coin_series \<Rightarrow> coin_series \<Rightarrow> entry list" where
  "merged c1 c2 = map (merged_entry c1 c2) (merged_dates c1 c2)"

text \<open>The date an entry carries, when its \<open>date\<close> property is a string.\<close>

definition entry_date :: "entry \<Rightarrow> string option" where
  "entry_date e = (case e ''date'' of Some (JStr d) \<Rightarrow> Some d | _ \<Rightarrow> None)"

text \<open>The argument of \<open>setData\<close>.\<close>

record compare_data =
  coin1 :: string
  coin2 :: string
  data :: "entry list"

definition build_data :: "coin_series \<Rightarrow> coin_series \<Rightarrow> compare_data" where
  "build_data c1 c2 =
     \<lparr>compare_data.coin1 = symbol c1, coin2 = symbol c2, data = merged c1 c2\<rparr>"

text \<open>
  The scenario of the specification: \<open>A\<close> has bars on days 1, 2 and 3, \<open>B\<close> on days 2, 3
  and 4. The days are written as the ISO dates the store keeps.
\<close>

definition scenario_A :: coin_series where
  "scenario_A = \<lparr>symbol = ''A'', data =
     [\<lparr>date = ''2024-01-01'', open_price = 9, high = 11, low = 8, close = 10, volume = 100\<rparr>,
      \<lparr>date = ''2024-01-02'', open_price = 10, high = 13, low = 9, close = 12, volume = 120\<rparr>,
      \<lparr>date = ''2024-01-03'', open_price = 12, high = 12, low = 10, close = 11, volume = 90\<rparr>]\<rparr>"

definition scenario_B :: coin_series where
  "scenario_B = \<lparr>symbol = ''B'', data =
     [\<lparr>date = ''2024-01-02'', open_price = 5, high = 6, low = 4, close = 5, volume = 10\<rparr>,
      \<lparr>date = ''2024-01-03'', open_price = 5, high = 7, low = 5, close = 6, volume = 20\<rparr>,
      \<lparr>date = ''2024-01-04'', open_price = 6, high = 8, low = 6, close = 7, volume = 30\<rparr>]\<rparr>"

subsection \<open>\<open>handleCompare\<close> as a trace of effects\<close>

text \<open>
  \<open>process.env.NEXT_PUBLIC_API_URL || 'http://localhost:8000'\<close>: an unset or empty
  variable gives the default.
\<close>

definition API_URL :: "string option \<Rightarrow> string" where
  "API_URL env =
     (case env of
        None \<Rightarrow> ''http://localhost:8000''
      | Some u \<Rightarrow> if u = [] then ''http://localhost:8000'' else u)"

text \<open>A non-negative integer in a template literal: its decimal digits.\<close>

fun string_of_nat :: "nat \<Rightarrow> string" where
  "string_of_nat n =
     (if n < 10 then [''0123456789'' ! n]
      else string_of_nat (n div 10) @ [''0123456789'' ! (n mod 10)])"

declare string_of_nat.simps [simp del]

text \<open>
  What the \<open>catch\<close> block can receive: the reason of a rejected promise (a failed
  \<open>fetch\<close>, a body that is not JSON), or the TypeError of reading the named property of
  \<open>undefined\<close>.
\<close>

datatype js_error = Rejection string | TypeError string

text \<open>
  What \<open>await\<close> finds. For \<open>Promise.all\<close> of the three requests it is \<open>Fulfilled\<close>
  with all three values once every request has completed, \<open>Rejected\<close> with the reason
  of the request that failed first, or \<open>Pending\<close> for ever when a request never
  completes and none fails.
\<close>

datatype 'a settled = Fulfilled 'a | Rejected js_error | Pending

text \<open>
  The state of \<open>CompareContent\<close>. \<open>'c\<close> is the type of a catalogue item, \<open>'d\<close> the
  type of a coin's details; the page hands both on without reading them. \<open>None\<close> is the
  initial \<open>null\<close>.
\<close>

record ('c, 'd) compare_state =
  coin1 :: string
  coin2 :: string
  coins :: "'c list"
  data :: "compare_data option"
  coin1Details :: "'d option"
  coin2Details :: "'d option"
  loading :: bool
  days :: nat

text \<open>What \<open>handleCompare\<close> does to the outside, in program order.\<close>

datatype 'd event =
    Alert string
  | AlertError js_error
  | Fetch string
  | SetLoading bool
  | SetData compare_data
  | SetCoin1Details 'd
  | SetCoin2Details 'd

fun apply_event :: "'d event \<Rightarrow> ('c, 'd) compare_state \<Rightarrow> ('c, 'd) compare_state" where
  "apply_event (SetLoading b) st = st\<lparr>compare_state.loading := b\<rparr>"
| "apply_event (SetData cd) st = st\<lparr>compare_state.data := Some cd\<rparr>"
| "apply_event (SetCoin1Details d) st = st\<lparr>coin1Details := Some d\<rparr>"
| "apply_event (SetCoin2Details d) st = st\<lparr>coin2Details := Some d\<rparr>"
| "apply_event _ st = st"

definition run_events :: "'d event list \<Rightarrow> ('c, 'd) compare_state \<Rightarrow> ('c, 'd) compare_state" where
  "run_events evs st = fold apply_event evs st"

definition compare_url :: "string option \<Rightarrow> ('c, 'd) compare_state \<Rightarrow> string" where
  "compare_url env st =
     API_URL env @ ''/compare?coin1='' @ compare_state.coin1 st @ ''&coin2='' @
       compare_state.coin2 st @ ''&days='' @ string_of_nat (compare_state.days st)"

definition details_url :: "string option \<Rightarrow> string \<Rightarrow> string" where
  "details_url env c = API_URL env @ ''/coins/'' @ c"

text \<open>
  Lines 71 to 91: the merge and the argument of \<open>setData\<close>. Reading \<open>.data\<close> of a
  missing leg throws, the first leg first.
\<close>

definition merge_response :: "compareResult \<Rightarrow> js_error + compare_data" where
  "merge_response r =
     (case compareResult.coin1 r of
        None \<Rightarrow> Inl (TypeError ''data'')
      | Some c1 \<Rightarrow>
          (case compareResult.coin2 r of
             None \<Rightarrow> Inl (TypeError ''data'')
           | Some c2 \<Rightarrow> Inr (build_data c1 c2)))"

text \<open>
  \<open>handleCompare\<close>. The two guards return after an alert. Otherwise the three requests
  are issued, their joint outcome is awaited, and only then the \<open>try\<close> body goes on;
  \<open>catch\<close> alerts the message of whatever was thrown and \<open>finally\<close> resets \<open>loading\<close>.
  While the outcome is pending the handler does not go on at all.
\<close>

definition handleCompare ::
  "string option \<Rightarrow> ('c, 'd) compare_state \<Rightarrow> (compareResult \<times> 'd \<times> 'd) settled \<Rightarrow> 'd event list"
where
  "handleCompare env st joined =
     (if compare_state.coin1 st = [] \<or> compare_state.coin2 st = [] then [Alert ''Select both coins'']
      else if compare_state.coin1 st = compare_state.coin2 st then [Alert ''Select different coins'']
      else
        [SetLoading True,
         Fetch (compare_url env st),
         Fetch (details_url env (compare_state.coin1 st)),
         Fetch (details_url env (compare_state.coin2 st))] @
        (case joined of
           Pending \<Rightarrow> []
         | Rejected err \<Rightarrow> [AlertError err, SetLoading False]
         | Fulfilled (compareResult, details1, details2) \<Rightarrow>
             (case merge_response compareResult of
                Inl err \<Rightarrow> [AlertError err]
              | Inr cd \<Rightarrow> [SetData cd, SetCoin1Details details1, SetCoin2Details details2]) @
             [SetLoading False]))"

section \<open>The dashboard\<close>

text \<open>
  An item of the catalogue, with the properties the dashboard and its cards read. A
  numeric property that is absent or \<open>null\<close> is \<open>None\<close>.
\<close>

record coin =
  symbol :: string
  currentPrice :: "rat option"
  priceChange24h :: "rat option"
  volume24h :: "rat option"
  volatility :: "rat option"

text \<open>\<open>x || 0\<close> on a number that may be missing.\<close>

definition or_zero :: "rat option \<Rightarrow> rat" where
  "or_zero x = (case x of None \<Rightarrow> 0 | Some v \<Rightarrow> v)"

text \<open>
  The comparator of \<open>sortedCoins\<close>. \<open>localeCompare\<close> depends on the locale of the
  browser and is a parameter.
\<close>

definition sort_compare :: "(string \<Rightarrow> string \<Rightarrow> rat) \<Rightarrow> string \<Rightarrow> coin \<Rightarrow> coin \<Rightarrow> rat" where
  "sort_compare localeCompare sortBy a b =
     (if sortBy = ''symbol'' then localeCompare (coin.symbol a) (coin.symbol b)
      else if sortBy = ''price'' then or_zero (currentPrice b) - or_zero (currentPrice a)
      else if sortBy = ''change'' then or_zero (priceChange24h b) - or_zero (priceChange24h a)
      else if sortBy = ''volume'' then or_zero (volume24h b) - or_zero (volume24h a)
      else if sortBy = ''volatility'' then or_zero (volatility b) - or_zero (volatility a)
      else 0)"

text \<open>The comparator of \<open>topMovers\<close>.\<close>

definition movers_compare :: "coin \<Rightarrow> coin \<Rightarrow> rat" where
  "movers_compare a b = \<bar>or_zero (priceChange24h b)\<bar> - \<bar>or_zero (priceChange24h a)\<bar>"

text \<open>
  \<open>Array.prototype.sort\<close> with a comparator is a stable sort: an element goes before the
  first element it does not compare greater than.
\<close>

fun insert_by :: "('a \<Rightarrow> 'a \<Rightarrow> rat) \<Rightarrow> 'a \<Rightarrow> 'a list \<Rightarrow> 'a list" where
  "insert_by cmp x [] = [x]"
| "insert_by cmp x (y # ys) = (if cmp x y \<le> 0 then x # y # ys else y # insert_by cmp x ys)"

definition array_sort :: "('a \<Rightarrow> 'a \<Rightarrow> rat) \<Rightarrow> 'a list \<Rightarrow> 'a list" where
  "array_sort cmp xs = foldr (insert_by cmp) xs []"

text \<open>
  Arrays are objects: \<open>sort\<close> reorders the array it is called on and returns that same
  array, where the spread \<open>[...xs]\<close> and \<open>slice\<close> build a new one. The heap is the list
  of the arrays allocated so far, and a reference is a position in it.
\<close>

type_synonym ref = nat

type_synonym 'a heap = "'a list list"

definition deref :: "'a heap \<Rightarrow> ref \<Rightarrow> 'a list option" where
  "deref h r = (if r < length h then Some (h ! r) else None)"

definition alloc :: "'a list \<Rightarrow> 'a heap \<Rightarrow> ref \<times> 'a heap" where
  "alloc xs h = (length h, h @ [xs])"

definition spread :: "ref \<Rightarrow> 'a heap \<Rightarrow> (ref \<times> 'a heap) option" where
  "spread r h = (case deref h r of None \<Rightarrow> None | Some xs \<Rightarrow> Some (alloc xs h))"

definition sort_in_place :: "('a \<Rightarrow> 'a \<Rightarrow> rat) \<Rightarrow> ref \<Rightarrow> 'a heap \<Rightarrow> (ref \<times> 'a heap) option" where
  "sort_in_place cmp r h =
     (case deref h r of None \<Rightarrow> None | Some xs \<Rightarrow> Some (r, h[r := array_sort cmp xs]))"

text \<open>\<open>slice(0, n)\<close>\<close>

definition slice0 :: "nat \<Rightarrow> ref \<Rightarrow> 'a heap \<Rightarrow> (ref \<times> 'a heap) option" where
  "slice0 n r h = (case deref h r of None \<Rightarrow> None | Some xs \<Rightarrow> Some (alloc (take n xs) h))"

text \<open>The state of \<open>Dashboard\<close>; \<open>coins\<close> is a reference to the fetched array.\<close>

record dashboard_state =
  coins :: ref
  loading :: bool
  error :: "string option"
  sortBy :: string

text \<open>What one render shows.\<close>

datatype dashboard_view =
    Loading
  | Error string
  | NoDataAvailable
  | Listing (movers: "coin list") (cards: "coin list") (showing: nat)

text \<open>
  One render of \<open>Dashboard\<close>: \<open>sortedCoins\<close> and \<open>topMovers\<close> are computed first, on
  every render, then the view is chosen (an empty error message is falsy). The result is
  the two references, the view and the heap after the render; \<open>None\<close> when \<open>coins\<close> does not
  denote an array.
\<close>

record dashboard_render =
  sortedCoins :: ref
  topMovers :: ref
  view :: dashboard_view

definition choose_view :: "dashboard_state \<Rightarrow> coin list \<Rightarrow> coin list \<Rightarrow> coin list \<Rightarrow> dashboard_view" where
  "choose_view st cs sc tm =
     (let listing = (if length cs = 0 then NoDataAvailable else Listing tm sc (length cs))
      in if dashboard_state.loading st then Loading
         else case error st of
                None \<Rightarrow> listing
              | Some msg \<Rightarrow> if msg = [] then listing else Error msg)"

definition Dashboard ::
  "(string \<Rightarrow> string \<Rightarrow> rat) \<Rightarrow> dashboard_state \<Rightarrow> coin heap \<Rightarrow> (dashboard_render \<times> coin heap) option"
where
  "Dashboard localeCompare st h =
     Option.bind (spread (dashboard_state.coins st) h) (\<lambda>(c1, h1).
     Option.bind (sort_in_place (sort_compare localeCompare (sortBy st)) c1 h1) (\<lambda>(sorted_ref, h2).
     Option.bind (spread (dashboard_state.coins st) h2) (\<lambda>(c2, h3).
     Option.bind (sort_in_place movers_compare c2 h3) (\<lambda>(c3, h4).
     Option.bind (slice0 5 c3 h4) (\<lambda>(movers_ref, h5).
       (case (deref h5 (dashboard_state.coins st), deref h5 sorted_ref, deref h5 movers_ref) of
          (Some cs, Some sc, Some tm) \<Rightarrow>
            Some (\<lparr>sortedCoins = sorted_ref, topMovers = movers_ref,
                   view = choose_view st cs sc tm\<rparr>, h5)
        | _ \<Rightarrow> None))))))"

section \<open>The card, the coin page and the charts\<close>

subsection \<open>Case mapping\<close>

text \<open>
  \<open>toLowerCase\<close> and \<open>toUpperCase\<close> on ASCII: a letter moves by 32 code units, every
  other ASCII character stays. Characters beyond ASCII are outside this model, and the
  statements about case mapping are about ASCII strings only.
\<close>

definition lower_letter :: "char \<Rightarrow> bool" where
  "lower_letter c = (CHR ''a'' \<le> c \<and> c \<le> CHR ''z'')"

definition upper_letter :: "char \<Rightarrow> bool" where
  "upper_letter c = (CHR ''A'' \<le> c \<and> c \<le> CHR ''Z'')"

definition digit :: "char \<Rightarrow> bool" where
  "digit c = (CHR ''0'' \<le> c \<and> c \<le> CHR ''9'')"

definition lower_char :: "char \<Rightarrow> char" where
  "lower_char c = (if upper_letter c then char_of (of_char c + (32::nat)) else c)"

definition upper_char :: "char \<Rightarrow> char" where
  "upper_char c = (if lower_letter c then char_of (of_char c - (32::nat)) else c)"

definition toLowerCase :: "string \<Rightarrow> string" where
  "toLowerCase s = map lower_char s"

definition toUpperCase :: "string \<Rightarrow> string" where
  "toUpperCase s = map upper_char s"

subsection \<open>\<open>CryptoCard\<close> and the route to the coin page\<close>

text \<open>The target of the card's link.\<close>

definition card_href :: "coin \<Rightarrow> string" where
  "card_href c = ''/coin/'' @ toLowerCase (coin.symbol c)"

text \<open>
  The router's part, for a path of one plain segment under \<open>/coin/\<close>: the segment is the
  parameter \<open>id\<close> of the page. Any other path does not reach the page with an \<open>id\<close>.
\<close>

definition route_id :: "string \<Rightarrow> string option" where
  "route_id path =
     (if take 6 path = ''/coin/'' \<and> drop 6 path \<noteq> [] \<and> CHR ''/'' \<notin> set (drop 6 path)
      then Some (drop 6 path) else None)"

subsection \<open>\<open>CoinDetail\<close>\<close>

text \<open>\<open>params?.id?.toUpperCase()\<close>\<close>

definition coinId :: "string option \<Rightarrow> string option" where
  "coinId param = map_option toUpperCase param"

text \<open>The state that the page's requests depend on, with its initial values.\<close>

record detail_state =
  days :: nat
  activeTab :: string
  timeframe :: string

definition initial_detail_state :: detail_state where
  "initial_detail_state = \<lparr>days = 365, activeTab = ''overview'', timeframe = ''1m''\<rparr>"

text \<open>What the user can change: the setters of the three state variables.\<close>

datatype detail_action = SetDays nat | SetActiveTab string | SetTimeframe string

fun detail_step :: "detail_state \<Rightarrow> detail_action \<Rightarrow> detail_state" where
  "detail_step st (SetDays n) = st\<lparr>detail_state.days := n\<rparr>"
| "detail_step st (SetActiveTab t) = st\<lparr>activeTab := t\<rparr>"
| "detail_step st (SetTimeframe t) = st\<lparr>timeframe := t\<rparr>"

text \<open>The actions that can change \<open>timeframe\<close>.\<close>

fun changes_timeframe :: "detail_action \<Rightarrow> bool" where
  "changes_timeframe (SetTimeframe t) = True"
| "changes_timeframe _ = False"

text \<open>
  The four effects, each as the list of URLs it fetches in a given state. \<open>!coinId\<close> holds
  for a missing and for an empty identifier.
\<close>

definition history_effect :: "string option \<Rightarrow> string option \<Rightarrow> detail_state \<Rightarrow> string list" where
  "history_effect env param st =
     (case coinId param of
        None \<Rightarrow> []
      | Some c \<Rightarrow>
          if c = [] then []
          else [API_URL env @ ''/coins/'' @ c,
                API_URL env @ ''/coins/'' @ c @ ''/history?days='' @
                  string_of_nat (detail_state.days st)])"

definition technical_effect :: "string option \<Rightarrow> string option \<Rightarrow> detail_state \<Rightarrow> string list" where
  "technical_effect env param st =
     (case coinId param of
        None \<Rightarrow> []
      | Some c \<Rightarrow>
          if c = [] \<or> activeTab st \<noteq> ''technical'' then []
          else [API_URL env @ ''/coins/'' @ c @ ''/technical?timeframe='' @ timeframe st])"

definition prediction_effect :: "string option \<Rightarrow> string option \<Rightarrow> detail_state \<Rightarrow> string list" where
  "prediction_effect env param st =
     (case coinId param of
        None \<Rightarrow> []
      | Some c \<Rightarrow>
          if c = [] \<or> activeTab st \<noteq> ''prediction'' then []
          else [API_URL env @ ''/coins/'' @ c @ ''/predict?lookback=30&epochs=15''])"

definition onchain_effect :: "string option \<Rightarrow> string option \<Rightarrow> detail_state \<Rightarrow> string list" where
  "onchain_effect env param st =
     (case coinId param of
        None \<Rightarrow> []
      | Some c \<Rightarrow>
          if c = [] \<or> activeTab st \<noteq> ''onchain'' then []
          else [API_URL env @ ''/coins/'' @ c @ ''/onchain-sentiment''])"

definition detail_requests :: "string option \<Rightarrow> string option \<Rightarrow> detail_state \<Rightarrow> string list" where
  "detail_requests env param st =
     history_effect env param st @ technical_effect env param st @
     prediction_effect env param st @ onchain_effect env param st"

subsection \<open>\<open>Sparkline\<close> and \<open>CandlestickChart\<close>\<close>

text \<open>
  \<open>Sparkline\<close> hands its points to the chart library without reading them; \<open>'p\<close> is
  their type. \<open>None\<close> is a missing \<open>data\<close> (here \<open>dat\<close>) or \<open>color\<close> property.
\<close>

datatype 'p sparkline_view = SparkNoData string | SparkLineChart "'p list" string

definition Sparkline :: "'p list option \<Rightarrow> string option \<Rightarrow> 'p sparkline_view" where
  "Sparkline dat color =
     (case dat of
        None \<Rightarrow> SparkNoData ''No data''
      | Some ds \<Rightarrow>
          if length ds = 0 then SparkNoData ''No data''
          else SparkLineChart ds (case color of None \<Rightarrow> ''#3b82f6'' | Some c \<Rightarrow> c))"

text \<open>An element of \<open>candleData\<close>.\<close>

record candle =
  date :: string
  open_price :: rat
  close :: rat
  high :: rat
  low :: rat
  fill :: string
  candleHigh :: rat
  candleLow :: rat

text \<open>
  The body of \<open>data.map\<close>. It reads the properties of the element, which throws on an
  element that is \<open>null\<close> or \<open>undefined\<close> (\<open>None\<close>).
\<close>

definition candle_of :: "bar option \<Rightarrow> js_error + candle" where
  "candle_of d =
     (case d of
        None \<Rightarrow> Inl (TypeError ''date'')
      | Some b \<Rightarrow>
          Inr \<lparr>date = bar.date b, open_price = bar.open_price b, close = bar.close b,
               high = bar.high b, low = bar.low b,
               fill = (if bar.close b \<ge> bar.open_price b then ''#4ade80'' else ''#f87171''),
               candleHigh = max (bar.open_price b) (bar.close b),
               candleLow = min (bar.open_price b) (bar.close b)\<rparr>)"

text \<open>\<open>map\<close> with a callback that may throw: the first exception ends it.\<close>

fun map_throwing :: "('a \<Rightarrow> js_error + 'b) \<Rightarrow> 'a list \<Rightarrow> js_error + 'b list" where
  "map_throwing f [] = Inr []"
| "map_throwing f (x # xs) =
     (case f x of
        Inl e \<Rightarrow> Inl e
      | Inr y \<Rightarrow> (case map_throwing f xs of Inl e \<Rightarrow> Inl e | Inr ys \<Rightarrow> Inr (y # ys)))"

text \<open>The chart with its data and the tick interval \<open>Math.floor(candleData.length / 8)\<close>.\<close>

datatype candlestick_view = CandleNoData string | ComposedChart "candle list" nat

definition CandlestickChart :: "bar option list option \<Rightarrow> js_error + candlestick_view" where
  "CandlestickChart dat =
     (case dat of
        None \<Rightarrow> Inr (CandleNoData ''No data available'')
      | Some ds \<Rightarrow>
          if length ds = 0 then Inr (CandleNoData ''No data available'')
          else (case map_throwing candle_of ds of
                  Inl e \<Rightarrow> Inl e
                | Inr candleData \<Rightarrow> Inr (ComposedChart candleData (length candleData div 8))))"

section \<open>Calendar days\<close>

text \<open>
  The bars of the specification carry a calendar day; the pages keep it as the string they
  received and never parse it. To say what date order is, a date string is read the usual
  way: three decimal numbers, year, month and day, separated by \<open>-\<close>, of any width. A
  string of another shape denotes no day.
\<close>

type_synonym day = "nat \<times> nat \<times> nat"

definition digit_value :: "char \<Rightarrow> nat" where
  "digit_value c = of_char c - 48"

fun decimal :: "string \<Rightarrow> nat" where
  "decimal [] = 0"
| "decimal (c # s) = digit_value c * 10 ^ length s + decimal s"

definition number :: "string \<Rightarrow> nat option" where
  "number s = (if s \<noteq> [] \<and> list_all digit s then Some (decimal s) else None)"

fun split_on :: "char \<Rightarrow> string \<Rightarrow> string list" where
  "split_on c [] = [[]]"
| "split_on c (x # xs) =
     (if x = c then [] # split_on c xs
      else (case split_on c xs of [] \<Rightarrow> [[x]] | w # ws \<Rightarrow> (x # w) # ws))"

definition calendar_day :: "string \<Rightarrow> day option" where
  "calendar_day s =
     (case split_on CHR ''-'' s of
        [y, m, d] \<Rightarrow>
          (case (number y, number m, number d) of
             (Some y', Some m', Some d') \<Rightarrow> Some (y', m', d')
           | _ \<Rightarrow> None)
      | _ \<Rightarrow> None)"

text \<open>Earlier in the calendar: by year, then month, then day.\<close>

definition day_before :: "day \<Rightarrow> day \<Rightarrow> bool" where
  "day_before a b =
     (case (a, b) of
        ((y, m, d), (y', m', d')) \<Rightarrow> y < y' \<or> (y = y' \<and> (m < m' \<or> (m = m' \<and> d < d'))))"

text \<open>
  The zero-padded ISO form \<open>yyyy-mm-dd\<close>: ten characters, digits except for the two
  separators.
\<close>

definition iso_date :: "string \<Rightarrow> bool" where
  "iso_date s =
     (length s = 10 \<and> list_all digit (take 4 s) \<and> s ! 4 = CHR ''-'' \<and>
      list_all digit (take 2 (drop 5 s)) \<and> s ! 7 = CHR ''-'' \<and> list_all digit (drop 8 s))"

text \<open>The calendar day of a merged entry.\<close>

definition entry_day :: "entry \<Rightarrow> day option" where
  "entry_day e = (case entry_date e of None \<Rightarrow> None | Some d \<Rightarrow> calendar_day d)"

section \<open>Concrete inputs\<close>

text \<open>The inputs at which the theorems below are instantiated.\<close>

definition example_compare_state :: "(unit, string) compare_state" where
  "example_compare_state =
     \<lparr>coin1 = ''BTC'', coin2 = ''ETH'', coins = [], data = None, coin1Details = None,
      coin2Details = None, loading = False, days = 365\<rparr>"

definition example_same_state :: "(unit, string) compare_state" where
  "example_same_state =
     \<lparr>coin1 = ''BTC'', coin2 = ''BTC'', coins = [], data = None, coin1Details = None,
      coin2Details = None, loading = False, days = 365\<rparr>"

definition example_joined :: "(compareResult \<times> string \<times> string) settled" where
  "example_joined =
     Fulfilled (\<lparr>compareResult.coin1 = Some scenario_A, coin2 = Some scenario_B\<rparr>,
                ''details of A'', ''details of B'')"

definition example_coin :: "string \<Rightarrow> rat \<Rightarrow> rat \<Rightarrow> coin" where
  "example_coin s price change =
     \<lparr>symbol = s, currentPrice = Some price, priceChange24h = Some change,
      volume24h = None, volatility = None\<rparr>"

definition example_coins :: "coin list" where
  "example_coins =
     [example_coin ''ADA'' 1 (-2), example_coin ''BTC'' 60000 1, example_coin ''DOGE'' 2 7,
      example_coin ''ETH'' 3000 (-5), example_coin ''SOL'' 150 3, example_coin ''XRP'' 4 (-4)]"

definition example_dashboard :: dashboard_state where
  "example_dashboard = \<lparr>coins = 0, loading = False, error = None, sortBy = ''price''\<rparr>"

text \<open>Two legs whose dates are written without padding: 9 and 10 January.\<close>

definition unpadded_A :: coin_series where
  "unpadded_A = \<lparr>coin_series.symbol = ''A'', coin_series.data =
     [\<lparr>bar.date = ''2024-1-9'', bar.open_price = 9, bar.high = 11, bar.low = 8,
       bar.close = 10, bar.volume = 100\<rparr>]\<rparr>"

definition unpadded_B :: coin_series where
  "unpadded_B = \<lparr>coin_series.symbol = ''B'', coin_series.data =
     [\<lparr>bar.date = ''2024-1-10'', bar.open_price = 5, bar.high = 6, bar.low = 4,
       bar.close = 5, bar.volume = 10\<rparr>]\<rparr>"

section \<open>Properties of the merge\<close>

lemma set_set_add: "set (set_add x s) = insert x (set s)"
  by (auto simp: set_add_def)

lemma distinct_set_add: "distinct s \<Longrightarrow> distinct (set_add x s)"
  by (simp add: set_add_def)

lemma set_add_dates: "set (add_dates series dates) = set dates \<union> bar.date ` set series"
  unfolding add_dates_def
  by (induction series arbitrary: dates) (auto simp: set_set_add)

lemma distinct_add_dates: "distinct dates \<Longrightarrow> distinct (add_dates series dates)"
  unfolding add_dates_def
  by (induction series arbitrary: dates) (auto simp: distinct_set_add)

lemma set_merged_dates:
  "set (merged_dates c1 c2) =
     bar.date ` set (coin_series.data c1) \<union> bar.date ` set (coin_series.data c2)"
  by (simp add: merged_dates_def set_add_dates)

lemma distinct_merged_dates: "distinct (merged_dates c1 c2)"
  by (simp add: merged_dates_def distinct_add_dates)

lemma sorted_merged_dates: "sorted (merged_dates c1 c2)"
  by (simp add: merged_dates_def)

lemma strict_sorted_merged_dates: "sorted_wrt (<) (merged_dates c1 c2)"
  by (simp add: strict_sorted_iff sorted_merged_dates distinct_merged_dates)

lemma entry_date_merged_entry:
  "coin_series.symbol c1 \<noteq> ''date'' \<Longrightarrow> coin_series.symbol c2 \<noteq> ''date'' \<Longrightarrow>
   entry_date (merged_entry c1 c2 dt) = Some dt"
  by (simp add: entry_date_def merged_entry_def Let_def)

lemma map_entry_date_merged:
  "coin_series.symbol c1 \<noteq> ''date'' \<Longrightarrow> coin_series.symbol c2 \<noteq> ''date'' \<Longrightarrow>
   map entry_date (merged c1 c2) = map Some (merged_dates c1 c2)"
  by (simp add: merged_def entry_date_merged_entry)

lemma find_date_None:
  "dt \<notin> bar.date ` set series \<Longrightarrow> find (\<lambda>d. bar.date d = dt) series = None"
  by (induction series) auto

lemma find_date_distinct:
  "distinct (map bar.date series) \<Longrightarrow> b \<in> set series \<Longrightarrow>
   find (\<lambda>d. bar.date d = bar.date b) series = Some b"
  by (induction series) (auto simp: image_iff)

lemma merged_entry_first:
  "coin_series.symbol c1 \<noteq> coin_series.symbol c2 \<Longrightarrow>
   merged_entry c1 c2 dt (coin_series.symbol c1) =
     Some (close_or_null (find (\<lambda>d. bar.date d = dt) (coin_series.data c1)))"
  by (simp add: merged_entry_def Let_def)

lemma merged_entry_second:
  "merged_entry c1 c2 dt (coin_series.symbol c2) =
     Some (close_or_null (find (\<lambda>d. bar.date d = dt) (coin_series.data c2)))"
  by (simp add: merged_entry_def Let_def)

lemma merged_dates_commute: "merged_dates c1 c2 = merged_dates c2 c1"
  by (rule sorted_distinct_set_unique)
     (auto simp: sorted_merged_dates distinct_merged_dates set_merged_dates)

lemma merged_entry_commute:
  "coin_series.symbol c1 \<noteq> coin_series.symbol c2 \<Longrightarrow> merged_entry c1 c2 dt = merged_entry c2 c1 dt"
  by (simp add: merged_entry_def Let_def fun_upd_twist)

lemma merged_commute:
  "coin_series.symbol c1 \<noteq> coin_series.symbol c2 \<Longrightarrow> merged c1 c2 = merged c2 c1"
  by (simp add: merged_def merged_dates_commute merged_entry_commute)

text \<open>The scenario, evaluated.\<close>

lemma scenario_dates:
  "merged_dates scenario_A scenario_B = [''2024-01-01'', ''2024-01-02'', ''2024-01-03'', ''2024-01-04'']"
  by (simp add: merged_dates_def scenario_A_def scenario_B_def add_dates_def set_add_def)

lemma scenario_values:
  "map (\<lambda>e. (e ''date'', e ''A'', e ''B'')) (merged scenario_A scenario_B) =
     [(Some (JStr ''2024-01-01''), Some (JNum 10), Some JNull),
      (Some (JStr ''2024-01-02''), Some (JNum 12), Some (JNum 5)),
      (Some (JStr ''2024-01-03''), Some (JNum 11), Some (JNum 6)),
      (Some (JStr ''2024-01-04''), Some JNull, Some (JNum 7))]"
  by (simp add: merged_def scenario_dates merged_entry_def close_or_null_def)
     (simp add: scenario_A_def scenario_B_def)

lemma scenario_symbols:
  "coin_series.symbol scenario_A = ''A''" "coin_series.symbol scenario_B = ''B''"
  by (simp_all add: scenario_A_def scenario_B_def)

lemma scenario_entry_dates:
  "map entry_date (merged scenario_A scenario_B) =
     [Some ''2024-01-01'', Some ''2024-01-02'', Some ''2024-01-03'', Some ''2024-01-04'']"
  by (simp add: map_entry_date_merged scenario_symbols scenario_dates)

lemma scenario_nth:
  "merged scenario_A scenario_B ! 0 = merged_entry scenario_A scenario_B ''2024-01-01''"
  "merged scenario_A scenario_B ! 1 = merged_entry scenario_A scenario_B ''2024-01-02''"
  "merged scenario_A scenario_B ! 2 = merged_entry scenario_A scenario_B ''2024-01-03''"
  "merged scenario_A scenario_B ! 3 = merged_entry scenario_A scenario_B ''2024-01-04''"
  by (simp_all add: merged_def scenario_dates)

lemma scenario_length: "length (merged scenario_A scenario_B) = 4"
  by (simp add: merged_def scenario_dates)

text \<open>
  C1. The merge has exactly one entry for each date of the union of the two legs' dates,
  and an entry whose date has no bar in a leg carries \<open>null\<close> under that leg's symbol,
  not a number. The two symbols are different, and neither is the property name \<open>date\<close>
  of the entry itself. The witness is the scenario of the specification: entries for
  exactly the four days, \<open>null\<close> for \<open>A\<close> on day 4 and for \<open>B\<close> on day 1.
\<close>

theorem merged_date_union_and_absence:
  assumes "coin_series.symbol c1 \<noteq> coin_series.symbol c2"
    and "coin_series.symbol c1 \<noteq> ''date''" and "coin_series.symbol c2 \<noteq> ''date''"
  shows "distinct (map entry_date (merged c1 c2)) \<and>
         set (map entry_date (merged c1 c2)) =
           Some ` (bar.date ` set (coin_series.data c1) \<union> bar.date ` set (coin_series.data c2)) \<and>
         (\<forall>e \<in> set (merged c1 c2). \<forall>dt. entry_date e = Some dt \<longrightarrow>
            (dt \<notin> bar.date ` set (coin_series.data c1) \<longrightarrow> e (coin_series.symbol c1) = Some JNull) \<and>
            (dt \<notin> bar.date ` set (coin_series.data c2) \<longrightarrow> e (coin_series.symbol c2) = Some JNull))"
proof (intro conjI ballI allI impI)
  have m: "map entry_date (merged c1 c2) = map Some (merged_dates c1 c2)"
    using assms by (simp add: map_entry_date_merged)
  show "distinct (map entry_date (merged c1 c2))"
    by (simp add: m distinct_map distinct_merged_dates)
  show "set (map entry_date (merged c1 c2)) =
          Some ` (bar.date ` set (coin_series.data c1) \<union> bar.date ` set (coin_series.data c2))"
    by (simp only: m set_map set_merged_dates)
next
  fix e dt
  assume e: "e \<in> set (merged c1 c2)" and dt: "entry_date e = Some dt"
  from e obtain dt' where e': "e = merged_entry c1 c2 dt'"
    by (auto simp: merged_def)
  with dt assms have [simp]: "dt' = dt"
    by (simp add: entry_date_merged_entry)
  { assume "dt \<notin> bar.date ` set (coin_series.data c1)"
    then show "e (coin_series.symbol c1) = Some JNull"
      using assms(1) by (simp add: e' merged_entry_first find_date_None close_or_null_def) }
  { assume "dt \<notin> bar.date ` set (coin_series.data c2)"
    then show "e (coin_series.symbol c2) = Some JNull"
      by (simp add: e' merged_entry_second find_date_None close_or_null_def) }
qed

theorem merged_date_union_and_absence_witness:
  "coin_series.symbol scenario_A \<noteq> coin_series.symbol scenario_B \<and>
   coin_series.symbol scenario_A \<noteq> ''date'' \<and> coin_series.symbol scenario_B \<noteq> ''date'' \<and>
   distinct (map entry_date (merged scenario_A scenario_B)) \<and>
   set (map entry_date (merged scenario_A scenario_B)) =
     {Some ''2024-01-01'', Some ''2024-01-02'', Some ''2024-01-03'', Some ''2024-01-04''} \<and>
   length (merged scenario_A scenario_B) = 4 \<and>
   entry_date (merged scenario_A scenario_B ! 3) = Some ''2024-01-04'' \<and>
   (merged scenario_A scenario_B ! 3) (coin_series.symbol scenario_A) = Some JNull \<and>
   entry_date (merged scenario_A scenario_B ! 0) = Some ''2024-01-01'' \<and>
   (merged scenario_A scenario_B ! 0) (coin_series.symbol scenario_B) = Some JNull"
proof -
  have h1: "coin_series.symbol scenario_A \<noteq> coin_series.symbol scenario_B"
    and h2: "coin_series.symbol scenario_A \<noteq> ''date''"
    and h3: "coin_series.symbol scenario_B \<noteq> ''date''"
    by (simp_all add: scenario_symbols)
  note main = merged_date_union_and_absence [OF h1 h2 h3]
  have d3: "entry_date (merged scenario_A scenario_B ! 3) = Some ''2024-01-04''"
    and d0: "entry_date (merged scenario_A scenario_B ! 0) = Some ''2024-01-01''"
    by (simp_all add: scenario_nth entry_date_merged_entry h2 h3)
  have in3: "merged scenario_A scenario_B ! 3 \<in> set (merged scenario_A scenario_B)"
    and in0: "merged scenario_A scenario_B ! 0 \<in> set (merged scenario_A scenario_B)"
    by (simp_all add: scenario_length)
  have a4: "''2024-01-04'' \<notin> bar.date ` set (coin_series.data scenario_A)"
    and b1: "''2024-01-01'' \<notin> bar.date ` set (coin_series.data scenario_B)"
    by (simp_all add: scenario_A_def scenario_B_def)
  have dates: "bar.date ` set (coin_series.data scenario_A) \<union> bar.date ` set (coin_series.data scenario_B) =
          {''2024-01-01'', ''2024-01-02'', ''2024-01-03'', ''2024-01-04''}"
    by (simp add: scenario_A_def scenario_B_def insert_commute)
  have s: "set (map entry_date (merged scenario_A scenario_B)) =
     {Some ''2024-01-01'', Some ''2024-01-02'', Some ''2024-01-03'', Some ''2024-01-04''}"
    by (simp only: main [THEN conjunct2, THEN conjunct1] dates image_insert image_empty)
  note absent = main [THEN conjunct2, THEN conjunct2, rule_format]
  have n3: "(merged scenario_A scenario_B ! 3) (coin_series.symbol scenario_A) = Some JNull"
    by (rule absent [OF in3 d3, THEN conjunct1, rule_format, OF a4])
  have n0: "(merged scenario_A scenario_B ! 0) (coin_series.symbol scenario_B) = Some JNull"
    by (rule absent [OF in0 d0, THEN conjunct2, rule_format, OF b1])
  show ?thesis
    by (intro conjI h1 h2 h3 main [THEN conjunct1] s scenario_length d3 n3 d0 n0)
qed


text \<open>
  C2. Where a leg has a bar on the date of an entry, the entry carries that bar's close
  under the leg's symbol. The close prices are positive and a leg has one bar for a date,
  as the data model says.
\<close>

theorem merged_keeps_present_close:
  assumes "coin_series.symbol c1 \<noteq> coin_series.symbol c2"
    and "coin_series.symbol c1 \<noteq> ''date''" and "coin_series.symbol c2 \<noteq> ''date''"
    and "distinct (map bar.date (coin_series.data c1))"
    and "distinct (map bar.date (coin_series.data c2))"
    and "\<forall>b \<in> set (coin_series.data c1) \<union> set (coin_series.data c2). 0 < bar.close b"
  shows "\<forall>e \<in> set (merged c1 c2).
           (\<forall>b \<in> set (coin_series.data c1). entry_date e = Some (bar.date b) \<longrightarrow>
               e (coin_series.symbol c1) = Some (JNum (bar.close b))) \<and>
           (\<forall>b \<in> set (coin_series.data c2). entry_date e = Some (bar.date b) \<longrightarrow>
               e (coin_series.symbol c2) = Some (JNum (bar.close b)))"
proof (intro ballI conjI impI)
  fix e b
  assume e: "e \<in> set (merged c1 c2)" and dt: "entry_date e = Some (bar.date b)"
    and b: "b \<in> set (coin_series.data c1)"
  from e obtain dt' where e': "e = merged_entry c1 c2 dt'"
    by (auto simp: merged_def)
  with dt assms(2,3) have [simp]: "dt' = bar.date b"
    by (simp add: entry_date_merged_entry)
  from b assms(6) have "0 < bar.close b" by blast
  then have "bar.close b \<noteq> 0" by simp
  then show "e (coin_series.symbol c1) = Some (JNum (bar.close b))"
    using assms(1,4) b by (simp add: e' merged_entry_first find_date_distinct close_or_null_def)
next
  fix e b
  assume e: "e \<in> set (merged c1 c2)" and dt: "entry_date e = Some (bar.date b)"
    and b: "b \<in> set (coin_series.data c2)"
  from e obtain dt' where e': "e = merged_entry c1 c2 dt'"
    by (auto simp: merged_def)
  with dt assms(2,3) have [simp]: "dt' = bar.date b"
    by (simp add: entry_date_merged_entry)
  from b assms(6) have "0 < bar.close b" by blast
  then have "bar.close b \<noteq> 0" by simp
  then show "e (coin_series.symbol c2) = Some (JNum (bar.close b))"
    using assms(5) b by (simp add: e' merged_entry_second find_date_distinct close_or_null_def)
qed

theorem merged_keeps_present_close_witness:
  "coin_series.symbol scenario_A \<noteq> coin_series.symbol scenario_B \<and>
   coin_series.symbol scenario_A \<noteq> ''date'' \<and> coin_series.symbol scenario_B \<noteq> ''date'' \<and>
   distinct (map bar.date (coin_series.data scenario_A)) \<and>
   distinct (map bar.date (coin_series.data scenario_B)) \<and>
   list_all (\<lambda>b. 0 < bar.close b) (coin_series.data scenario_A @ coin_series.data scenario_B) \<and>
   entry_date (merged scenario_A scenario_B ! 1) = Some ''2024-01-02'' \<and>
   (merged scenario_A scenario_B ! 1) (coin_series.symbol scenario_A) = Some (JNum 12) \<and>
   (merged scenario_A scenario_B ! 1) (coin_series.symbol scenario_B) = Some (JNum 5)"
proof -
  have h1: "coin_series.symbol scenario_A \<noteq> coin_series.symbol scenario_B"
    and h2: "coin_series.symbol scenario_A \<noteq> ''date''"
    and h3: "coin_series.symbol scenario_B \<noteq> ''date''"
    by (simp_all add: scenario_symbols)
  have h4: "distinct (map bar.date (coin_series.data scenario_A))"
    and h5: "distinct (map bar.date (coin_series.data scenario_B))"
    by (simp_all add: scenario_A_def scenario_B_def)
  have pos: "list_all (\<lambda>b. 0 < bar.close b) (coin_series.data scenario_A @ coin_series.data scenario_B)"
    by (simp add: scenario_A_def scenario_B_def)
  then have h6: "\<forall>b \<in> set (coin_series.data scenario_A) \<union> set (coin_series.data scenario_B). 0 < bar.close b"
    by (simp only: list_all_iff set_append)
  note main = merged_keeps_present_close [OF h1 h2 h3 h4 h5 h6, rule_format]
  have in1: "merged scenario_A scenario_B ! 1 \<in> set (merged scenario_A scenario_B)"
    by (simp add: scenario_length)
  have d1: "entry_date (merged scenario_A scenario_B ! 1) = Some ''2024-01-02''"
    by (simp only: scenario_nth entry_date_merged_entry [OF h2 h3])
  have a: "coin_series.data scenario_A ! 1 \<in> set (coin_series.data scenario_A)"
    and b: "coin_series.data scenario_B ! 0 \<in> set (coin_series.data scenario_B)"
    by (simp_all add: scenario_A_def scenario_B_def)
  have ea: "bar.date (coin_series.data scenario_A ! 1) = ''2024-01-02''"
    and eb: "bar.date (coin_series.data scenario_B ! 0) = ''2024-01-02''"
    by (simp_all add: scenario_A_def scenario_B_def)
  have da: "entry_date (merged scenario_A scenario_B ! 1) = Some (bar.date (coin_series.data scenario_A ! 1))"
    and db: "entry_date (merged scenario_A scenario_B ! 1) = Some (bar.date (coin_series.data scenario_B ! 0))"
    by (simp_all only: d1 ea eb)
  have ca: "bar.close (coin_series.data scenario_A ! 1) = 12"
    and cb: "bar.close (coin_series.data scenario_B ! 0) = 5"
    by (simp_all add: scenario_A_def scenario_B_def)
  have va: "(merged scenario_A scenario_B ! 1) (coin_series.symbol scenario_A) = Some (JNum 12)"
    using main [OF in1, THEN conjunct1, rule_format, OF a da] by (simp only: ca)
  have vb: "(merged scenario_A scenario_B ! 1) (coin_series.symbol scenario_B) = Some (JNum 5)"
    using main [OF in1, THEN conjunct2, rule_format, OF b db] by (simp only: cb)
  show ?thesis
    by (intro conjI h1 h2 h3 h4 h5 pos d1 va vb)
qed

text \<open>
  C3. Comparing \<open>(A, B)\<close> and \<open>(B, A)\<close> gives the same entries, with the same values
  for the same dates under the same symbols; only the labels \<open>coin1\<close> and \<open>coin2\<close> of
  the result are exchanged.
\<close>

theorem compare_symmetric:
  assumes "coin_series.symbol c1 \<noteq> coin_series.symbol c2"
  shows "compare_data.coin1 (build_data c1 c2) = compare_data.coin2 (build_data c2 c1) \<and>
         compare_data.coin2 (build_data c1 c2) = compare_data.coin1 (build_data c2 c1) \<and>
         compare_data.data (build_data c1 c2) = compare_data.data (build_data c2 c1)"
  using assms by (simp add: build_data_def merged_commute)

theorem compare_symmetric_witness:
  "coin_series.symbol scenario_A \<noteq> coin_series.symbol scenario_B \<and>
   compare_data.coin1 (build_data scenario_A scenario_B) = ''A'' \<and>
   compare_data.coin2 (build_data scenario_B scenario_A) = ''A'' \<and>
   compare_data.coin2 (build_data scenario_A scenario_B) = ''B'' \<and>
   compare_data.coin1 (build_data scenario_B scenario_A) = ''B'' \<and>
   compare_data.data (build_data scenario_A scenario_B) =
     compare_data.data (build_data scenario_B scenario_A)"
proof -
  have h: "coin_series.symbol scenario_A \<noteq> coin_series.symbol scenario_B"
    by (simp add: scenario_symbols)
  from compare_symmetric [OF h] show ?thesis
    by (simp add: build_data_def scenario_symbols)
qed

subsection \<open>String order and date order\<close>

text \<open>
  \<open>sort()\<close> orders the dates as strings. For dates in the zero-padded ISO form that is
  the order of the calendar; for dates of varying width it is not.
\<close>

lemma digit_bounds: "digit c \<Longrightarrow> 48 \<le> (of_char c :: nat) \<and> (of_char c :: nat) \<le> 57"
  by (simp add: digit_def less_eq_char_def)

lemma digit_value_less: "digit c \<Longrightarrow> digit_value c < 10"
  using digit_bounds [of c] unfolding digit_value_def by linarith

lemma digit_value_mono:
  assumes "digit c" and "digit e" and "c < e"
  shows "digit_value c < digit_value e"
proof -
  from assms(3) have "(of_char c :: nat) < of_char e"
    by (simp add: less_char_def)
  with digit_bounds [OF assms(1)] digit_bounds [OF assms(2)] show ?thesis
    unfolding digit_value_def by linarith
qed

lemma decimal_bound: "list_all digit s \<Longrightarrow> decimal s < 10 ^ length s"
proof (induction s)
  case Nil
  show ?case by simp
next
  case (Cons c s)
  then have d: "digit_value c \<le> 9" and b: "decimal s < 10 ^ length s"
    using digit_value_less [of c] by simp_all
  from d have "digit_value c * 10 ^ length s \<le> 9 * 10 ^ length s"
    by (rule mult_le_mono1)
  then have "digit_value c * 10 ^ length s + decimal s < 9 * 10 ^ length s + 10 ^ length s"
    using b by (rule add_le_less_mono)
  then show ?case
    by simp
qed

lemma decimal_less:
  assumes "length a = length b" and "list_all digit a" and "list_all digit b" and "a < b"
  shows "decimal a < decimal b"
  using assms
proof (induction a b rule: list_induct2)
  case Nil
  then show ?case by simp
next
  case (Cons c a e b)
  from Cons.prems have dc: "digit c" and de: "digit e"
    and da: "list_all digit a" and db: "list_all digit b"
    by simp_all
  from Cons.prems(3) consider "c < e" | "c = e" "a < b"
    by auto
  then show ?case
  proof cases
    case 1
    with dc de have "Suc (digit_value c) \<le> digit_value e"
      using digit_value_mono by fastforce
    then have "Suc (digit_value c) * 10 ^ length a \<le> digit_value e * 10 ^ length a"
      by (rule mult_le_mono1)
    moreover have "decimal a < 10 ^ length a"
      using da by (rule decimal_bound)
    ultimately have "digit_value c * 10 ^ length a + decimal a < digit_value e * 10 ^ length a"
      by simp
    then show ?thesis
      using Cons.hyps by simp
  next
    case 2
    with Cons.IH da db have "decimal a < decimal b" by simp
    with 2 Cons.hyps show ?thesis by simp
  qed
qed

lemma split_on_no_sep: "c \<notin> set a \<Longrightarrow> split_on c a = [a]"
  by (induction a) auto

lemma split_on_append: "c \<notin> set a \<Longrightarrow> split_on c (a @ c # rest) = a # split_on c rest"
  by (induction a) auto

lemma digit_not_dash: "list_all digit a \<Longrightarrow> CHR ''-'' \<notin> set a"
  by (auto simp: list_all_iff digit_def less_eq_char_def)

lemma calendar_day_fields:
  assumes "list_all digit Y" "list_all digit M" "list_all digit D" "Y \<noteq> []" "M \<noteq> []" "D \<noteq> []"
  shows "calendar_day (Y @ CHR ''-'' # M @ CHR ''-'' # D) = Some (decimal Y, decimal M, decimal D)"
  using assms
  by (simp add: calendar_day_def split_on_append split_on_no_sep digit_not_dash number_def)

lemma less_append_same_length:
  "length a = length b \<Longrightarrow> a @ x < b @ y \<longleftrightarrow> a < b \<or> (a = b \<and> x < y)"
  by (induction a b rule: list_induct2) auto

lemma less_same_length_append:
  "length a = length b \<Longrightarrow> a < b \<Longrightarrow> a @ x < b @ y"
  by (simp add: less_append_same_length)

lemma iso_date_fields:
  assumes "iso_date s"
  obtains Y M D where "s = Y @ CHR ''-'' # M @ CHR ''-'' # D"
    and "length Y = 4" and "length M = 2" and "length D = 2"
    and "list_all digit Y" and "list_all digit M" and "list_all digit D"
proof -
  from assms have len: "length s = 10" and s4: "s ! 4 = CHR ''-''" and s7: "s ! 7 = CHR ''-''"
    and dY: "list_all digit (take 4 s)" and dM: "list_all digit (take 2 (drop 5 s))"
    and dD: "list_all digit (drop 8 s)"
    by (simp_all add: iso_date_def)
  have a: "s = take 4 s @ s ! 4 # drop 5 s"
    using id_take_nth_drop [of 4 s] len by simp
  have b: "drop 5 s = take 2 (drop 5 s) @ drop 5 s ! 2 # drop 3 (drop 5 s)"
    using id_take_nth_drop [of 2 "drop 5 s"] len by simp
  have "s = take 4 s @ CHR ''-'' # take 2 (drop 5 s) @ CHR ''-'' # drop 8 s"
    using a b len s4 s7 by (simp add: nth_drop) 
  then show ?thesis
    using that [of "take 4 s" "take 2 (drop 5 s)" "drop 8 s"] len dY dM dD by simp
qed

lemma iso_date_order:
  assumes "iso_date s" and "iso_date t" and "s < t"
  shows "\<exists>a b. calendar_day s = Some a \<and> calendar_day t = Some b \<and> day_before a b"
proof -
  from assms(1) obtain Y M D where s: "s = Y @ CHR ''-'' # M @ CHR ''-'' # D"
    and l: "length Y = 4" "length M = 2" "length D = 2"
    and d: "list_all digit Y" "list_all digit M" "list_all digit D"
    by (rule iso_date_fields)
  from assms(2) obtain Y' M' D' where t: "t = Y' @ CHR ''-'' # M' @ CHR ''-'' # D'"
    and l': "length Y' = 4" "length M' = 2" "length D' = 2"
    and d': "list_all digit Y'" "list_all digit M'" "list_all digit D'"
    by (rule iso_date_fields)
  have cs: "calendar_day s = Some (decimal Y, decimal M, decimal D)"
    unfolding s using d l by (intro calendar_day_fields) auto
  have ct: "calendar_day t = Some (decimal Y', decimal M', decimal D')"
    unfolding t using d' l' by (intro calendar_day_fields) auto
  from assms(3) have "Y < Y' \<or> (Y = Y' \<and> (M < M' \<or> (M = M' \<and> D < D')))"
    unfolding s t using l l' by (simp add: less_append_same_length)
  then have "day_before (decimal Y, decimal M, decimal D) (decimal Y', decimal M', decimal D')"
    using decimal_less [of Y Y'] decimal_less [of M M'] decimal_less [of D D'] l l' d d'
    by (auto simp: day_before_def)
  with cs ct show ?thesis by blast
qed

lemma iso_dates_sorted:
  assumes "sorted_wrt (<) ds" and "\<forall>d \<in> set ds. iso_date d"
  shows "\<exists>days. map calendar_day ds = map Some days \<and> sorted_wrt day_before days"
proof -
  let ?days = "map (\<lambda>d. the (calendar_day d)) ds"
  have some: "calendar_day d = Some (the (calendar_day d))" if "d \<in> set ds" for d
  proof -
    from that assms(2) have i: "iso_date d" by blast
    then obtain Y M D where "d = Y @ CHR ''-'' # M @ CHR ''-'' # D"
      and "length Y = 4" "length M = 2" "length D = 2"
      and "list_all digit Y" "list_all digit M" "list_all digit D"
      by (rule iso_date_fields)
    then have "calendar_day d = Some (decimal Y, decimal M, decimal D)"
      by (auto intro!: calendar_day_fields)
    then show ?thesis by simp
  qed
  then have m: "map calendar_day ds = map Some ?days"
    by simp
  have "sorted_wrt (\<lambda>s t. day_before (the (calendar_day s)) (the (calendar_day t))) ds"
  proof (rule sorted_wrt_mono_rel [OF _ assms(1)])
    fix s t assume "s \<in> set ds" "t \<in> set ds" "s < t"
    with assms(2) iso_date_order [of s t]
    show "day_before (the (calendar_day s)) (the (calendar_day t))"
      by fastforce
  qed
  then have "sorted_wrt day_before ?days"
    by (simp add: sorted_wrt_map)
  with m show ?thesis by blast
qed

lemma entry_day_merged_entry:
  "coin_series.symbol c1 \<noteq> ''date'' \<Longrightarrow> coin_series.symbol c2 \<noteq> ''date'' \<Longrightarrow>
   entry_day (merged_entry c1 c2 dt) = calendar_day dt"
  by (simp add: entry_day_def entry_date_merged_entry)

lemma map_entry_day_merged:
  "coin_series.symbol c1 \<noteq> ''date'' \<Longrightarrow> coin_series.symbol c2 \<noteq> ''date'' \<Longrightarrow>
   map entry_day (merged c1 c2) = map calendar_day (merged_dates c1 c2)"
  by (simp add: merged_def entry_day_merged_entry)

lemma scenario_days:
  "map calendar_day [''2024-01-01'', ''2024-01-02'', ''2024-01-03'', ''2024-01-04''] =
     [Some (2024, 1, 1), Some (2024, 1, 2), Some (2024, 1, 3), Some (2024, 1, 4)]"
  by code_simp

lemma scenario_iso:
  "iso_date ''2024-01-01''" "iso_date ''2024-01-02''" "iso_date ''2024-01-03''"
  "iso_date ''2024-01-04''"
  by code_simp+

lemma unpadded_dates: "merged_dates unpadded_A unpadded_B = [''2024-1-10'', ''2024-1-9'']"
  by (simp add: merged_dates_def unpadded_A_def unpadded_B_def add_dates_def set_add_def)

lemma unpadded_days:
  "map calendar_day [''2024-1-10'', ''2024-1-9''] = [Some (2024, 1, 10), Some (2024, 1, 9)]"
  by code_simp

text \<open>
  C4, as amended. For all input series the merged entries carry each date of the two legs
  exactly once, strictly ascending in the string order that \<open>sort()\<close> uses. When the
  dates of both legs are zero-padded ISO dates, the entries are strictly ascending in
  calendar order, so in ascending date order with no day twice.
\<close>

theorem merged_ascending_date_order:
  assumes "coin_series.symbol c1 \<noteq> ''date''" and "coin_series.symbol c2 \<noteq> ''date''"
  shows "map entry_date (merged c1 c2) = map Some (merged_dates c1 c2) \<and>
         sorted_wrt (<) (merged_dates c1 c2) \<and>
         set (merged_dates c1 c2) =
           bar.date ` set (coin_series.data c1) \<union> bar.date ` set (coin_series.data c2) \<and>
         ((\<forall>b \<in> set (coin_series.data c1) \<union> set (coin_series.data c2). iso_date (bar.date b)) \<longrightarrow>
          (\<exists>days. map entry_day (merged c1 c2) = map Some days \<and> sorted_wrt day_before days))"
proof (intro conjI impI)
  show "map entry_date (merged c1 c2) = map Some (merged_dates c1 c2)"
    using assms by (rule map_entry_date_merged)
  show "sorted_wrt (<) (merged_dates c1 c2)"
    by (rule strict_sorted_merged_dates)
  show "set (merged_dates c1 c2) =
          bar.date ` set (coin_series.data c1) \<union> bar.date ` set (coin_series.data c2)"
    by (rule set_merged_dates)
next
  assume iso: "\<forall>b \<in> set (coin_series.data c1) \<union> set (coin_series.data c2). iso_date (bar.date b)"
  then have "\<forall>d \<in> set (merged_dates c1 c2). iso_date d"
    by (auto simp: set_merged_dates)
  with strict_sorted_merged_dates [of c1 c2]
  have "\<exists>days. map calendar_day (merged_dates c1 c2) = map Some days \<and> sorted_wrt day_before days"
    by (rule iso_dates_sorted)
  then show "\<exists>days. map entry_day (merged c1 c2) = map Some days \<and> sorted_wrt day_before days"
    using assms by (simp add: map_entry_day_merged)
qed

theorem merged_ascending_date_order_witness:
  "coin_series.symbol scenario_A \<noteq> ''date'' \<and> coin_series.symbol scenario_B \<noteq> ''date'' \<and>
   list_all iso_date (map bar.date (coin_series.data scenario_A @ coin_series.data scenario_B)) \<and>
   map entry_date (merged scenario_A scenario_B) =
     [Some ''2024-01-01'', Some ''2024-01-02'', Some ''2024-01-03'', Some ''2024-01-04''] \<and>
   sorted_wrt (<) [''2024-01-01'', ''2024-01-02'', ''2024-01-03'', ''2024-01-04''] \<and>
   map entry_day (merged scenario_A scenario_B) =
     [Some (2024, 1, 1), Some (2024, 1, 2), Some (2024, 1, 3), Some (2024, 1, 4)] \<and>
   sorted_wrt day_before [(2024, 1, 1), (2024, 1, 2), (2024, 1, 3), (2024, 1, 4)]"
proof -
  have h2: "coin_series.symbol scenario_A \<noteq> ''date''"
    and h3: "coin_series.symbol scenario_B \<noteq> ''date''"
    by (simp_all add: scenario_symbols)
  have l: "list_all iso_date (map bar.date (coin_series.data scenario_A @ coin_series.data scenario_B))"
    by (simp add: scenario_A_def scenario_B_def scenario_iso)
  then have iso: "\<forall>b \<in> set (coin_series.data scenario_A) \<union> set (coin_series.data scenario_B).
                    iso_date (bar.date b)"
    by (auto simp: list_all_iff)
  note main = merged_ascending_date_order [OF h2 h3, unfolded scenario_dates]
  have m: "map entry_date (merged scenario_A scenario_B) =
     [Some ''2024-01-01'', Some ''2024-01-02'', Some ''2024-01-03'', Some ''2024-01-04'']"
    using main [THEN conjunct1] by simp
  have e: "map entry_day (merged scenario_A scenario_B) =
     [Some (2024, 1, 1), Some (2024, 1, 2), Some (2024, 1, 3), Some (2024, 1, 4)]"
    by (simp only: map_entry_day_merged [OF h2 h3] scenario_dates scenario_days)
  from main [THEN conjunct2, THEN conjunct2, THEN conjunct2, THEN mp, OF iso]
  obtain days where d: "map entry_day (merged scenario_A scenario_B) = map Some days"
    and s: "sorted_wrt day_before days"
    by blast
  from d e have "map Some days = map Some [(2024, 1, 1), (2024, 1, 2), (2024, 1, 3), (2024, 1, 4 :: nat)]"
    by simp
  then have "days = [(2024, 1, 1), (2024, 1, 2), (2024, 1, 3), (2024, 1, 4)]"
    by (simp only: inj_map_eq_map [OF inj_Some])
  with s have sd: "sorted_wrt day_before [(2024, 1, 1), (2024, 1, 2), (2024, 1, 3), (2024, 1, 4)]"
    by (simp only:)
  show ?thesis
    by (intro conjI h2 h3 l m main [THEN conjunct2, THEN conjunct1] e sd)
qed

text \<open>
  C4 as stated, for every pair of input series, fails: for the unpadded dates
  \<open>2024-1-9\<close> and \<open>2024-1-10\<close> the merge puts the entry of 10 January before
  the entry of 9 January.
\<close>

theorem merged_date_order_counterexample:
  "map entry_day (merged unpadded_A unpadded_B) = [Some (2024, 1, 10), Some (2024, 1, 9)] \<and>
   \<not> sorted_wrt day_before [(2024, 1, 10), (2024, 1, 9)] \<and>
   day_before (2024, 1, 9) (2024, 1, 10)"
proof -
  have h: "coin_series.symbol unpadded_A \<noteq> ''date''" "coin_series.symbol unpadded_B \<noteq> ''date''"
    by (simp_all add: unpadded_A_def unpadded_B_def)
  have "map entry_day (merged unpadded_A unpadded_B) = [Some (2024, 1, 10), Some (2024, 1, 9)]"
    by (simp only: map_entry_day_merged [OF h] unpadded_dates unpadded_days)
  then show ?thesis
    by (simp add: day_before_def)
qed

section \<open>Properties of \<open>handleCompare\<close>\<close>

lemma example_compare_url:
  "compare_url None example_compare_state =
     ''http://localhost:8000/compare?coin1=BTC&coin2=ETH&days=365''"
  by (simp add: compare_url_def example_compare_state_def API_URL_def string_of_nat.simps)

lemma example_details_urls:
  "details_url None (compare_state.coin1 example_compare_state) = ''http://localhost:8000/coins/BTC''"
  "details_url None (compare_state.coin2 example_compare_state) = ''http://localhost:8000/coins/ETH''"
  by (simp_all add: details_url_def example_compare_state_def API_URL_def)

lemma example_handleCompare:
  "handleCompare None example_compare_state example_joined =
     [SetLoading True,
      Fetch ''http://localhost:8000/compare?coin1=BTC&coin2=ETH&days=365'',
      Fetch ''http://localhost:8000/coins/BTC'',
      Fetch ''http://localhost:8000/coins/ETH'',
      SetData (build_data scenario_A scenario_B),
      SetCoin1Details ''details of A'', SetCoin2Details ''details of B'',
      SetLoading False]"
proof -
  have g: "compare_state.coin1 example_compare_state \<noteq> []"
    "compare_state.coin2 example_compare_state \<noteq> []"
    "compare_state.coin1 example_compare_state \<noteq> compare_state.coin2 example_compare_state"
    by (simp_all add: example_compare_state_def)
  show ?thesis
    by (simp add: handleCompare_def g example_compare_url example_details_urls
                  example_joined_def merge_response_def)
qed

text \<open>
  C5. \<open>setData\<close> is reached only when the joint outcome of the three requests is their
  three values and the response carries both legs; the value it stores is the merge of
  both legs, and in the trace it comes after the three requests. A rejected request, a
  request that never completes or a response with one leg only gives no \<open>setData\<close>.
\<close>

theorem handleCompare_waits_for_both:
  assumes "SetData cd \<in> set (handleCompare env st joined)"
  shows "\<exists>r c1 c2 details1 details2.
           joined = Fulfilled (r, details1, details2) \<and>
           compareResult.coin1 r = Some c1 \<and> compareResult.coin2 r = Some c2 \<and>
           cd = build_data c1 c2 \<and>
           handleCompare env st joined =
             [SetLoading True,
              Fetch (compare_url env st),
              Fetch (details_url env (compare_state.coin1 st)),
              Fetch (details_url env (compare_state.coin2 st)),
              SetData cd, SetCoin1Details details1, SetCoin2Details details2,
              SetLoading False]"
  using assms
  by (auto simp: handleCompare_def merge_response_def
           split: if_splits settled.splits sum.splits option.splits prod.splits)

theorem handleCompare_waits_for_both_witness:
  "SetData (build_data scenario_A scenario_B) \<in>
     set (handleCompare None example_compare_state example_joined) \<and>
   (\<exists>r c1 c2 details1 details2.
      example_joined = Fulfilled (r, details1, details2) \<and>
      compareResult.coin1 r = Some c1 \<and> compareResult.coin2 r = Some c2 \<and>
      build_data scenario_A scenario_B = build_data c1 c2 \<and>
      handleCompare None example_compare_state example_joined =
        [SetLoading True,
         Fetch (compare_url None example_compare_state),
         Fetch (details_url None (compare_state.coin1 example_compare_state)),
         Fetch (details_url None (compare_state.coin2 example_compare_state)),
         SetData (build_data scenario_A scenario_B),
         SetCoin1Details details1, SetCoin2Details details2,
         SetLoading False])"
proof -
  have h: "SetData (build_data scenario_A scenario_B) \<in>
             set (handleCompare None example_compare_state example_joined)"
    by (simp add: example_handleCompare)
  show ?thesis
    by (rule conjI [OF h handleCompare_waits_for_both [OF h]])
qed

text \<open>
  C10. The request to \<open>/compare\<close> is issued exactly when both selections are non-empty
  and different. Otherwise the handler alerts and does nothing else: no request, no call
  of a state setter, so the state is as it was.
\<close>

theorem handleCompare_request_iff:
  "(Fetch (compare_url env st) \<in> set (handleCompare env st joined) \<longleftrightarrow>
      compare_state.coin1 st \<noteq> [] \<and> compare_state.coin2 st \<noteq> [] \<and>
      compare_state.coin1 st \<noteq> compare_state.coin2 st) \<and>
   (compare_state.coin1 st = [] \<or> compare_state.coin2 st = [] \<or>
    compare_state.coin1 st = compare_state.coin2 st \<longrightarrow>
      (\<exists>msg. handleCompare env st joined = [Alert msg]) \<and>
      (\<forall>u. Fetch u \<notin> set (handleCompare env st joined)) \<and>
      run_events (handleCompare env st joined) st = st)"
  by (auto simp: handleCompare_def run_events_def)

theorem handleCompare_request_iff_witness:
  "compare_state.coin1 example_same_state = compare_state.coin2 example_same_state \<and>
   handleCompare None example_same_state example_joined = [Alert ''Select different coins''] \<and>
   run_events (handleCompare None example_same_state example_joined) example_same_state =
     example_same_state \<and>
   Fetch ''http://localhost:8000/compare?coin1=BTC&coin2=ETH&days=365'' \<in>
     set (handleCompare None example_compare_state example_joined)"
proof -
  have same: "compare_state.coin1 example_same_state = compare_state.coin2 example_same_state"
    by (simp add: example_same_state_def)
  then have g: "compare_state.coin1 example_same_state = [] \<or>
                compare_state.coin2 example_same_state = [] \<or>
                compare_state.coin1 example_same_state = compare_state.coin2 example_same_state"
    by simp
  note guarded =
    handleCompare_request_iff [where env = None and st = example_same_state
      and joined = example_joined, THEN conjunct2, rule_format, OF g]
  have alert: "handleCompare None example_same_state example_joined = [Alert ''Select different coins'']"
    by (simp add: handleCompare_def example_same_state_def)
  have d: "compare_state.coin1 example_compare_state \<noteq> [] \<and>
           compare_state.coin2 example_compare_state \<noteq> [] \<and>
           compare_state.coin1 example_compare_state \<noteq> compare_state.coin2 example_compare_state"
    by (simp add: example_compare_state_def)
  note issued =
    handleCompare_request_iff [where env = None and st = example_compare_state
      and joined = example_joined, THEN conjunct1, THEN iffD2, OF d]
  show ?thesis
    using same alert guarded [THEN conjunct2, THEN conjunct2] issued
    by (simp only: example_compare_url simp_thms)
qed

section \<open>Properties of the dashboard\<close>

lemma mset_insert_by: "mset (insert_by cmp x xs) = add_mset x (mset xs)"
  by (induction xs) auto

lemma mset_array_sort: "mset (array_sort cmp xs) = mset xs"
  unfolding array_sort_def by (induction xs) (auto simp: mset_insert_by)

lemma Dashboard_result:
  assumes "dashboard_state.coins st < length h"
  shows "Dashboard lc st h =
     Some (\<lparr>sortedCoins = length h, topMovers = Suc (Suc (length h)),
             view = choose_view st (h ! dashboard_state.coins st)
                      (array_sort (sort_compare lc (sortBy st)) (h ! dashboard_state.coins st))
                      (take 5 (array_sort movers_compare (h ! dashboard_state.coins st)))\<rparr>,
           h @ [array_sort (sort_compare lc (sortBy st)) (h ! dashboard_state.coins st),
                array_sort movers_compare (h ! dashboard_state.coins st),
                take 5 (array_sort movers_compare (h ! dashboard_state.coins st))])"
  using assms
  by (simp add: Dashboard_def spread_def deref_def alloc_def sort_in_place_def slice0_def
                nth_append list_update_append)

lemma length_array_sort: "length (array_sort cmp xs) = length xs"
  using mset_array_sort [of cmp xs] by (metis size_mset)

lemma example_sorted:
  "map coin.symbol (array_sort (sort_compare lc ''price'') example_coins) =
     [''BTC'', ''ETH'', ''SOL'', ''XRP'', ''DOGE'', ''ADA'']"
  by (simp add: array_sort_def sort_compare_def example_coins_def example_coin_def or_zero_def)

lemma example_movers:
  "map coin.symbol (take 5 (array_sort movers_compare example_coins)) =
     [''DOGE'', ''ETH'', ''XRP'', ''SOL'', ''ADA'']"
  by (simp add: array_sort_def movers_compare_def example_coins_def example_coin_def or_zero_def)

lemma example_run:
  "Dashboard lc example_dashboard [example_coins] =
     Some (\<lparr>sortedCoins = 1, topMovers = 3,
             view = Listing (take 5 (array_sort movers_compare example_coins))
                      (array_sort (sort_compare lc ''price'') example_coins) 6\<rparr>,
           [example_coins, array_sort (sort_compare lc ''price'') example_coins,
            array_sort movers_compare example_coins,
            take 5 (array_sort movers_compare example_coins)])"
proof -
  have h: "dashboard_state.coins example_dashboard < length [example_coins]"
    by (simp add: example_dashboard_def)
  have v: "choose_view example_dashboard example_coins sc tm = Listing tm sc 6" for sc tm
    by (simp add: choose_view_def example_dashboard_def example_coins_def)
  have f: "dashboard_state.coins example_dashboard = 0" "sortBy example_dashboard = ''price''"
    by (simp_all add: example_dashboard_def)
  show ?thesis
    by (simp add: Dashboard_result [OF h] v f)
qed

text \<open>
  C9. A render computes \<open>sortedCoins\<close> and \<open>topMovers\<close> in arrays of their own: every
  array that existed before the render, the fetched list among them, has the same
  elements in the same order after it. \<open>sortedCoins\<close> is a rearrangement of the fetched
  list, \<open>topMovers\<close> has at most five of its elements, and the count that a listing shows
  is the length of the fetched list, whatever the sort key.
\<close>

theorem Dashboard_keeps_coins:
  assumes "dashboard_state.coins st < length h"
  shows "\<exists>res h'. Dashboard lc st h = Some (res, h') \<and>
           (\<forall>r < length h. deref h' r = deref h r) \<and>
           sortedCoins res \<noteq> dashboard_state.coins st \<and>
           topMovers res \<noteq> dashboard_state.coins st \<and>
           (\<exists>sc tm. deref h' (sortedCoins res) = Some sc \<and> deref h' (topMovers res) = Some tm \<and>
              mset sc = mset (h ! dashboard_state.coins st) \<and>
              length tm \<le> 5 \<and> set tm \<subseteq> set (h ! dashboard_state.coins st) \<and>
              view res = choose_view st (h ! dashboard_state.coins st) sc tm) \<and>
           (\<forall>tm sc n. view res = Listing tm sc n \<longrightarrow> n = length (h ! dashboard_state.coins st))"
proof -
  let ?cs = "h ! dashboard_state.coins st"
  let ?sc = "array_sort (sort_compare lc (sortBy st)) ?cs"
  let ?ms = "array_sort movers_compare ?cs"
  let ?h' = "h @ [?sc, ?ms, take 5 ?ms]"
  let ?res = "\<lparr>sortedCoins = length h, topMovers = Suc (Suc (length h)),
               view = choose_view st ?cs ?sc (take 5 ?ms)\<rparr>"
  have run: "Dashboard lc st h = Some (?res, ?h')"
    using assms by (rule Dashboard_result)
  have frame: "\<forall>r < length h. deref ?h' r = deref h r"
    by (simp add: deref_def nth_append)
  have fresh: "sortedCoins ?res \<noteq> dashboard_state.coins st" "topMovers ?res \<noteq> dashboard_state.coins st"
    using assms by simp_all
  have sc: "deref ?h' (sortedCoins ?res) = Some ?sc"
    and tm: "deref ?h' (topMovers ?res) = Some (take 5 ?ms)"
    by (simp_all add: deref_def nth_append)
  have "set (take 5 ?ms) \<subseteq> set ?ms" by (rule set_take_subset)
  also have "set ?ms = set ?cs" by (metis mset_array_sort set_mset_mset)
  finally have sub: "set (take 5 ?ms) \<subseteq> set ?cs" .
  have shown: "\<forall>tm sc n. view ?res = Listing tm sc n \<longrightarrow> n = length ?cs"
    by (auto simp: choose_view_def Let_def split: if_splits option.splits)
  show ?thesis
    apply (rule exI [of _ ?res], rule exI [of _ ?h'])
    apply (intro conjI run frame fresh shown)
    apply (rule exI [of _ ?sc], rule exI [of _ "take 5 ?ms"])
    apply (intro conjI sc tm mset_array_sort sub refl)
     apply simp
    apply simp
    done
qed

theorem Dashboard_keeps_coins_witness:
  "dashboard_state.coins example_dashboard < length [example_coins] \<and>
   (\<exists>res h'. Dashboard (\<lambda>a b. 0) example_dashboard [example_coins] = Some (res, h') \<and>
      deref h' (dashboard_state.coins example_dashboard) = Some example_coins \<and>
      map_option (map coin.symbol) (deref h' (sortedCoins res)) =
        Some [''BTC'', ''ETH'', ''SOL'', ''XRP'', ''DOGE'', ''ADA''] \<and>
      map_option (map coin.symbol) (deref h' (topMovers res)) =
        Some [''DOGE'', ''ETH'', ''XRP'', ''SOL'', ''ADA''] \<and>
      showing (view res) = 6)"
proof -
  have h: "dashboard_state.coins example_dashboard < length [example_coins]"
    by (simp add: example_dashboard_def)
  from Dashboard_keeps_coins [OF h, of "\<lambda>a b. 0"] obtain res h'
    where run: "Dashboard (\<lambda>a b. 0) example_dashboard [example_coins] = Some (res, h')"
      and frame: "\<forall>r < length [example_coins]. deref h' r = deref [example_coins] r"
    by blast
  from frame h have kept: "deref h' (dashboard_state.coins example_dashboard) = Some example_coins"
    by (simp add: deref_def example_dashboard_def)
  from run have res: "sortedCoins res = 1" "topMovers res = 3" "showing (view res) = 6"
    and h': "h' = [example_coins, array_sort (sort_compare (\<lambda>a b. 0) ''price'') example_coins,
                   array_sort movers_compare example_coins,
                   take 5 (array_sort movers_compare example_coins)]"
    by (auto simp: example_run)
  have sc: "map_option (map coin.symbol) (deref h' (sortedCoins res)) =
              Some [''BTC'', ''ETH'', ''SOL'', ''XRP'', ''DOGE'', ''ADA'']"
    by (simp add: res h' deref_def example_sorted)
  have tm: "map_option (map coin.symbol) (deref h' (topMovers res)) =
              Some [''DOGE'', ''ETH'', ''XRP'', ''SOL'', ''ADA'']"
    by (simp add: res h' deref_def example_movers)
  show ?thesis
    apply (rule conjI [OF h])
    apply (rule exI [of _ res], rule exI [of _ h'])
    apply (intro conjI run kept sc tm res(3))
    done
qed

section \<open>Properties of the coin page, the card and the charts\<close>

lemma timeframe_step: "\<not> changes_timeframe a \<Longrightarrow> timeframe (detail_step st a) = timeframe st"
  by (cases a) simp_all

lemma timeframe_foldl:
  "\<forall>a \<in> set as. \<not> changes_timeframe a \<Longrightarrow> timeframe (foldl detail_step st as) = timeframe st"
  by (induction as arbitrary: st) (simp_all add: timeframe_step)

lemma example_coinId: "coinId (Some ''btc'') = Some ''BTC''"
  by code_simp

text \<open>
  C6. As long as the user has not set the timeframe, it is \<open>1m\<close>, and the technical
  request, when the page issues it, ends in \<open>/technical?timeframe=1m\<close>; the prediction
  request, in every state and for every coin, ends in \<open>/predict?lookback=30&epochs=15\<close>.
\<close>

theorem detail_default_parameters:
  assumes "\<forall>a \<in> set as. \<not> changes_timeframe a"
  shows "timeframe (foldl detail_step initial_detail_state as) = ''1m'' \<and>
         (\<forall>u \<in> set (technical_effect env param (foldl detail_step initial_detail_state as)).
            suffix ''/technical?timeframe=1m'' u) \<and>
         (\<forall>st. \<forall>u \<in> set (prediction_effect env param st).
            suffix ''/predict?lookback=30&epochs=15'' u) \<and>
         (\<forall>c. coinId param = Some c \<and> c \<noteq> [] \<and>
              activeTab (foldl detail_step initial_detail_state as) = ''technical'' \<longrightarrow>
              technical_effect env param (foldl detail_step initial_detail_state as) =
                [API_URL env @ ''/coins/'' @ c @ ''/technical?timeframe=1m'']) \<and>
         (\<forall>c st. coinId param = Some c \<and> c \<noteq> [] \<and> activeTab st = ''prediction'' \<longrightarrow>
              prediction_effect env param st =
                [API_URL env @ ''/coins/'' @ c @ ''/predict?lookback=30&epochs=15''])"
proof -
  have tf: "timeframe (foldl detail_step initial_detail_state as) = ''1m''"
    using assms by (simp add: timeframe_foldl initial_detail_state_def)
  have s1: "suffix ''/technical?timeframe=1m'' (a @ ''/technical?timeframe=1m'')" for a :: string
    by (simp add: suffix_def)
  have s2: "suffix ''/predict?lookback=30&epochs=15'' (a @ ''/predict?lookback=30&epochs=15'')" for a :: string
    by (simp add: suffix_def)
  show ?thesis
  proof (intro conjI allI ballI impI)
    show "timeframe (foldl detail_step initial_detail_state as) = ''1m''" by (rule tf)
  next
    fix u assume "u \<in> set (technical_effect env param (foldl detail_step initial_detail_state as))"
    then show "suffix ''/technical?timeframe=1m'' u"
      using s1 [of "API_URL env @ ''/coins/'' @ c" for c]
      by (auto simp: technical_effect_def tf split: option.splits if_splits)
  next
    fix st :: detail_state and u
    assume "u \<in> set (prediction_effect env param st)"
    then show "suffix ''/predict?lookback=30&epochs=15'' u"
      using s2 [of "API_URL env @ ''/coins/'' @ c" for c]
      by (auto simp: prediction_effect_def split: option.splits if_splits)
  next
    fix c assume "coinId param = Some c \<and> c \<noteq> [] \<and>
              activeTab (foldl detail_step initial_detail_state as) = ''technical''"
    then show "technical_effect env param (foldl detail_step initial_detail_state as) =
                [API_URL env @ ''/coins/'' @ c @ ''/technical?timeframe=1m'']"
      by (simp add: technical_effect_def tf)
  next
    fix c and st :: detail_state
    assume "coinId param = Some c \<and> c \<noteq> [] \<and> activeTab st = ''prediction''"
    then show "prediction_effect env param st =
                [API_URL env @ ''/coins/'' @ c @ ''/predict?lookback=30&epochs=15'']"
      by (simp add: prediction_effect_def)
  qed
qed

theorem detail_default_parameters_witness:
  "list_all (\<lambda>a. \<not> changes_timeframe a) [SetActiveTab ''technical'', SetDays 30] \<and>
   technical_effect None (Some ''btc'')
       (foldl detail_step initial_detail_state [SetActiveTab ''technical'', SetDays 30]) =
     [''http://localhost:8000/coins/BTC/technical?timeframe=1m''] \<and>
   prediction_effect None (Some ''btc'') (detail_step initial_detail_state (SetActiveTab ''prediction'')) =
     [''http://localhost:8000/coins/BTC/predict?lookback=30&epochs=15'']"
proof -
  let ?as = "[SetActiveTab ''technical'', SetDays 30]"
  have l: "list_all (\<lambda>a. \<not> changes_timeframe a) ?as"
    by simp
  then have h: "\<forall>a \<in> set ?as. \<not> changes_timeframe a"
    by (simp only: list_all_iff)
  note main = detail_default_parameters [OF h, where env = None and param = "Some ''btc''"]
  have t: "coinId (Some ''btc'') = Some ''BTC'' \<and> ''BTC'' \<noteq> [] \<and>
           activeTab (foldl detail_step initial_detail_state ?as) = ''technical''"
    by (simp add: example_coinId initial_detail_state_def)
  have p: "coinId (Some ''btc'') = Some ''BTC'' \<and> ''BTC'' \<noteq> [] \<and>
           activeTab (detail_step initial_detail_state (SetActiveTab ''prediction'')) = ''prediction''"
    by (simp add: example_coinId initial_detail_state_def)
  have tech: "technical_effect None (Some ''btc'') (foldl detail_step initial_detail_state ?as) =
     [''http://localhost:8000/coins/BTC/technical?timeframe=1m'']"
    using main [THEN conjunct2, THEN conjunct2, THEN conjunct2, THEN conjunct1, rule_format, OF t]
    by (simp add: API_URL_def)
  have pred: "prediction_effect None (Some ''btc'') (detail_step initial_detail_state (SetActiveTab ''prediction'')) =
     [''http://localhost:8000/coins/BTC/predict?lookback=30&epochs=15'']"
    using main [THEN conjunct2, THEN conjunct2, THEN conjunct2, THEN conjunct2, rule_format, OF p]
    by (simp add: API_URL_def)
  show ?thesis
    by (intro conjI l tech pred)
qed

lemma upper_lower_char:
  assumes "upper_letter c"
  shows "upper_char (lower_char c) = c"
proof -
  let ?n = "of_char c :: nat"
  from assms have n: "65 \<le> ?n" "?n \<le> 90"
    by (simp_all add: upper_letter_def less_eq_char_def)
  then have m: "(?n + 32) mod 256 = ?n + 32"
    by simp
  have low: "lower_letter (char_of (?n + 32))"
    using n by (simp add: lower_letter_def less_eq_char_def m)
  have "upper_char (lower_char c) = upper_char (char_of (?n + 32))"
    using assms by (simp add: lower_char_def)
  also have "\<dots> = char_of (of_char (char_of (?n + 32) :: char) - (32::nat))"
    using low by (simp only: upper_char_def if_True)
  also have "\<dots> = char_of ?n"
    by (simp only: of_char_of m) simp
  also have "\<dots> = c"
    by simp
  finally show ?thesis .
qed

lemma digit_case_fixed:
  assumes "digit c"
  shows "lower_char c = c" and "upper_char c = c"
  using assms
  by (simp_all add: digit_def lower_char_def upper_char_def upper_letter_def lower_letter_def
                    less_eq_char_def)

lemma upper_letter_upper_fixed:
  assumes "upper_letter c"
  shows "upper_char c = c"
  using assms
  by (simp add: upper_char_def upper_letter_def lower_letter_def less_eq_char_def)

lemma round_trip_char:
  "upper_letter c \<or> digit c \<Longrightarrow> upper_char (lower_char c) = c"
  by (auto simp: upper_lower_char digit_case_fixed)

lemma round_trip:
  "\<forall>c \<in> set s. upper_letter c \<or> digit c \<Longrightarrow> toUpperCase (toLowerCase s) = s"
  by (induction s) (simp_all add: toUpperCase_def toLowerCase_def round_trip_char)

lemma upper_fixed:
  "\<forall>c \<in> set s. upper_letter c \<or> digit c \<Longrightarrow> toUpperCase s = s"
  by (induction s) (auto simp: toUpperCase_def digit_case_fixed upper_letter_upper_fixed)

lemma lower_char_not_slash:
  assumes "upper_letter c \<or> digit c"
  shows "lower_char c \<noteq> CHR ''/''"
  using assms
proof
  assume u: "upper_letter c"
  let ?n = "of_char c :: nat"
  from u have n: "65 \<le> ?n" "?n \<le> 90"
    by (simp_all add: upper_letter_def less_eq_char_def)
  then have "of_char (char_of (?n + 32) :: char) \<noteq> (of_char CHR ''/'' :: nat)"
    by (simp only: of_char_of) simp
  then have "char_of (?n + 32) \<noteq> CHR ''/''"
    by (simp only: of_char_eq_iff not_False_eq_True)
  moreover have "lower_char c = char_of (?n + 32)"
    using u by (simp add: lower_char_def)
  ultimately show ?thesis by simp
next
  assume d: "digit c"
  then have "c \<noteq> CHR ''/''"
    by (auto simp: digit_def less_eq_char_def)
  then show ?thesis using d by (simp add: digit_case_fixed)
qed

lemma route_id_card_href:
  assumes "\<forall>c \<in> set (coin.symbol k). upper_letter c \<or> digit c" and "coin.symbol k \<noteq> []"
  shows "route_id (card_href k) = Some (toLowerCase (coin.symbol k))"
proof -
  have "\<forall>c \<in> set (coin.symbol k). lower_char c \<noteq> CHR ''/''"
    using assms(1) lower_char_not_slash by blast
  then have "CHR ''/'' \<notin> set (toLowerCase (coin.symbol k))"
    unfolding toLowerCase_def by (metis (no_types, lifting) imageE list.set_map)
  moreover have "toLowerCase (coin.symbol k) \<noteq> []"
    using assms(2) by (simp add: toLowerCase_def)
  ultimately show ?thesis
    by (simp add: route_id_def card_href_def)
qed

text \<open>
  C7. For a symbol of uppercase letters and digits, the card's link leads to a page whose
  \<open>coinId\<close> is the symbol again: uppercasing undoes the lowercasing of the link. The
  symbol is its own uppercase form, and every request of the page starts with
  \<open>/coins/\<close> and that symbol.
\<close>

theorem symbol_case_round_trip:
  assumes "\<forall>c \<in> set (coin.symbol k). upper_letter c \<or> digit c" and "coin.symbol k \<noteq> []"
  shows "coinId (route_id (card_href k)) = Some (coin.symbol k) \<and>
         toUpperCase (coin.symbol k) = coin.symbol k \<and>
         (\<forall>u \<in> set (detail_requests env (route_id (card_href k)) st).
            prefix (API_URL env @ ''/coins/'' @ coin.symbol k) u)"
proof -
  have id: "coinId (route_id (card_href k)) = Some (coin.symbol k)"
    using assms by (simp add: route_id_card_href coinId_def round_trip)
  have up: "toUpperCase (coin.symbol k) = coin.symbol k"
    using assms(1) by (rule upper_fixed)
  have "\<forall>u \<in> set (detail_requests env (route_id (card_href k)) st).
            prefix (API_URL env @ ''/coins/'' @ coin.symbol k) u"
    by (auto simp: detail_requests_def history_effect_def technical_effect_def
                   prediction_effect_def onchain_effect_def id)
  with id up show ?thesis by blast
qed

theorem symbol_case_round_trip_witness:
  "list_all (\<lambda>c. upper_letter c \<or> digit c) (coin.symbol (example_coin ''BTC'' 60000 1)) \<and>
   coin.symbol (example_coin ''BTC'' 60000 1) \<noteq> [] \<and>
   card_href (example_coin ''BTC'' 60000 1) = ''/coin/btc'' \<and>
   coinId (route_id (card_href (example_coin ''BTC'' 60000 1))) = Some ''BTC'' \<and>
   list_all (prefix ''http://localhost:8000/coins/BTC'')
     (detail_requests None (route_id (card_href (example_coin ''BTC'' 60000 1)))
        initial_detail_state)"
proof -
  let ?k = "example_coin ''BTC'' 60000 1"
  have s: "coin.symbol ?k = ''BTC''"
    by (simp add: example_coin_def)
  have l: "list_all (\<lambda>c. upper_letter c \<or> digit c) (coin.symbol ?k)"
    by (simp add: s upper_letter_def digit_def)
  then have h1: "\<forall>c \<in> set (coin.symbol ?k). upper_letter c \<or> digit c"
    by (simp only: list_all_iff)
  have h2: "coin.symbol ?k \<noteq> []"
    by (simp add: s)
  note main = symbol_case_round_trip [OF h1 h2, where env = None and st = initial_detail_state]
  have href: "card_href ?k = ''/coin/btc''"
    unfolding card_href_def s by code_simp
  have id: "coinId (route_id (card_href ?k)) = Some ''BTC''"
    using main [THEN conjunct1] by (simp only: s)
  have reqs: "list_all (prefix ''http://localhost:8000/coins/BTC'')
     (detail_requests None (route_id (card_href ?k)) initial_detail_state)"
    using main [THEN conjunct2, THEN conjunct2]
    by (simp only: list_all_iff s) (simp add: API_URL_def)
  show ?thesis
    by (intro conjI l h2 href id reqs)
qed

text \<open>
  C8. On a missing and on an empty \<open>data\<close>, \<open>Sparkline\<close> and \<open>CandlestickChart\<close> return
  their placeholder. \<open>CandlestickChart\<close> returns it as a value, not as a thrown error:
  the callback that reads the properties of a bar is not run.
\<close>

theorem degenerate_charts:
  "Sparkline None color = SparkNoData ''No data'' \<and>
   Sparkline (Some []) color = SparkNoData ''No data'' \<and>
   CandlestickChart None = Inr (CandleNoData ''No data available'') \<and>
   CandlestickChart (Some []) = Inr (CandleNoData ''No data available'')"
  by (simp add: Sparkline_def CandlestickChart_def)

end
